theory Spec2Isabelle
  imports Main
begin

section \<open>fasshim: avatar URLs and cached FAS lookups\<close>

text \<open>
  A shallow embedding of \<^verbatim>\<open>fedmsg_meta_fedora_infrastructure/fasshim.py\<close>.
  Python strings are modelled as \<^typ>\<open>string\<close>, read as the UTF-8 bytes of the text,
  so \<^verbatim>\<open>s.encode('utf-8')\<close> is the identity.
\<close>

subsection \<open>Standard-library primitives\<close>

text \<open>
  The digest functions and the federated resolver are library calls. They are
  parameters of the model: \<open>sha256_hexdigest s\<close> stands for
  \<^verbatim>\<open>sha256(s.encode('utf-8')).hexdigest()\<close>, \<open>md5_hexdigest s\<close> for
  \<^verbatim>\<open>md5(s.encode('utf-8')).hexdigest()\<close>, and \<open>libravatar_url\<close> for
  \<^verbatim>\<open>libravatar.libravatar_url\<close>, called with either \<^verbatim>\<open>openid=\<close> or
  \<^verbatim>\<open>email=\<close>.
\<close>

datatype identity = Openid string | Email string

record stdlib =
  sha256_hexdigest :: "string \<Rightarrow> string"
  md5_hexdigest :: "string \<Rightarrow> string"
  libravatar_url :: "identity \<Rightarrow> int \<Rightarrow> string \<Rightarrow> string"

text \<open>\<^verbatim>\<open>str(n)\<close> for a Python integer: decimal digits, with a leading minus sign.
  \<open>digit_char\<close> is applied to numbers below ten only.\<close>

definition digit_char :: "nat \<Rightarrow> char" where
  "digit_char d = (''0123456789'') ! d"

fun str_nat :: "nat \<Rightarrow> string" where
  "str_nat n = (if n < 10 then [digit_char n] else str_nat (n div 10) @ [digit_char (n mod 10)])"

declare str_nat.simps [simp del]

definition str_int :: "int \<Rightarrow> string" where
  "str_int i = (if i < 0 then CHR ''-'' # str_nat (nat (- i)) else str_nat (nat i))"

text \<open>
  \<^verbatim>\<open>urllib.parse.quote_plus\<close> with its default arguments (Python 3.7 and later), byte
  by byte: letters, digits and \<^verbatim>\<open>_.-~\<close> are kept, a space becomes \<^verbatim>\<open>+\<close>, every other byte
  becomes \<^verbatim>\<open>%XX\<close> in upper-case hexadecimal.
\<close>

definition always_safe :: "char \<Rightarrow> bool" where
  "always_safe c = (c \<in> set (''ABCDEFGHIJKLMNOPQRSTUVWXYZ'' @ ''abcdefghijklmnopqrstuvwxyz''
                                @ ''0123456789'' @ ''_.-~''))"

definition hex_digit :: "nat \<Rightarrow> char" where
  "hex_digit d = (''0123456789ABCDEF'') ! (d mod 16)"

definition quote_char :: "char \<Rightarrow> string" where
  "quote_char c =
     (if always_safe c then [c]
      else if c = CHR '' '' then ''+''
      else [CHR ''%'', hex_digit (of_char c div 16), hex_digit (of_char c mod 16)])"

definition quote_plus :: "string \<Rightarrow> string" where
  "quote_plus s = concat (map quote_char s)"

text \<open>
  \<^verbatim>\<open>parse.urlencode\<close> of an ordered dictionary: the pairs in order, each as
  \<^verbatim>\<open>key=value\<close> with both sides quoted, joined by \<^verbatim>\<open>&\<close>.
\<close>

fun join :: "string \<Rightarrow> string list \<Rightarrow> string" where
  "join sep [] = []"
| "join sep [x] = x"
| "join sep (x # y # ys) = x @ sep @ join sep (y # ys)"

definition urlencode :: "(string \<times> string) list \<Rightarrow> string" where
  "urlencode params = join ''&'' (map (\<lambda>(k, v). quote_plus k @ ''='' @ quote_plus v) params)"

text \<open>
  \<^verbatim>\<open>_ordered_query_params\<close>: an \<^verbatim>\<open>OrderedDict\<close> of the pairs, which keeps them
  in the order given (the keys here are distinct).
\<close>

definition ordered_query_params :: "(string \<times> string) list \<Rightarrow> (string \<times> string) list" where
  "ordered_query_params params = params"

subsection \<open>Avatar URLs\<close>

text \<open>
  \<^verbatim>\<open>template.format(size=size)\<close> for a template whose only replacement field is
  \<^verbatim>\<open>{size}\<close>, as in every entry of \<^verbatim>\<open>hardcoded_avatars\<close>: each occurrence of
  the field is replaced by the rendered value.
\<close>

fun format_size :: "string \<Rightarrow> string \<Rightarrow> string" where
  "format_size [] v = []"
| "format_size (c # cs) v =
     (if take 6 (c # cs) = ''{size}'' then v @ format_size (drop 5 cs) v
      else c # format_size cs v)"

definition hardcoded_avatars :: "(string \<times> string) list" where
  "hardcoded_avatars =
     [(''bodhi'', ''https://apps.fedoraproject.org/img/icons/bodhi-{size}.png''),
      (''koschei'', ''https://apps.fedoraproject.org/img/icons/koschei-{size}.png''),
      (''taskotron'', ''https://apps.fedoraproject.org/img/icons/taskotron-{size}.png'')]"

definition avatar_url_from_openid :: "stdlib \<Rightarrow> string \<Rightarrow> int \<Rightarrow> string \<Rightarrow> bool \<Rightarrow> string" where
  "avatar_url_from_openid lib openid sz dflt dns =
     (if dns then libravatar_url lib (Openid openid) sz dflt
      else
        let params = ordered_query_params [(''s'', str_int sz), (''d'', dflt)];
            query = urlencode params;
            hash = sha256_hexdigest lib openid
        in ''https://seccdn.libravatar.org/avatar/'' @ hash @ ''?'' @ query)"

definition avatar_url_from_email :: "stdlib \<Rightarrow> string \<Rightarrow> int \<Rightarrow> string \<Rightarrow> bool \<Rightarrow> string" where
  "avatar_url_from_email lib email sz dflt dns =
     (if dns then libravatar_url lib (Email email) sz dflt
      else
        let params = ordered_query_params [(''s'', str_int sz), (''d'', dflt)];
            query = urlencode params;
            hash = md5_hexdigest lib email
        in ''https://seccdn.libravatar.org/avatar/'' @ hash @ ''?'' @ query)"

definition avatar_url :: "stdlib \<Rightarrow> string \<Rightarrow> int \<Rightarrow> string \<Rightarrow> string" where
  "avatar_url lib username sz dflt =
     (case map_of hardcoded_avatars username of
        Some template \<Rightarrow> format_size template (str_int sz)
      | None \<Rightarrow>
          let openid = ''http://'' @ username @ ''.id.fedoraproject.org/''
          in avatar_url_from_openid lib openid sz dflt False)"

subsection \<open>The directory service and the cache region\<close>

text \<open>
  The credentials are a Python dictionary from strings to strings, kept as an association
  list in insertion order. A person of the response carries an optional \<^verbatim>\<open>username\<close>,
  \<^verbatim>\<open>email\<close> and \<^verbatim>\<open>ircnick\<close>; the response itself carries the list of people and,
  at its top level, the optional keys \<^verbatim>\<open>username\<close>, \<^verbatim>\<open>email\<close> and \<^verbatim>\<open>ircnick\<close>
  that \<^verbatim>\<open>_search_fas\<close> reads.
\<close>

type_synonym credentials = "(string \<times> string) list"

record person =
  person_username :: "string option"
  person_email :: "string option"
  person_ircnick :: "string option"

record response =
  people :: "person list"
  username :: "string option"
  email :: "string option"
  ircnick :: "string option"

text \<open>
  One call of \<^verbatim>\<open>fasclient.send_request('/user/list', req_params=..., auth=True)\<close>:
  the client's base URL, user name and password, and the request parameters
  \<^verbatim>\<open>search\<close> and \<^verbatim>\<open>by_email\<close>.
\<close>

record request =
  req_base_url :: string
  req_username :: string
  req_password :: string
  req_search :: string
  req_by_email :: bool

text \<open>
  The exceptions of the module. \<open>NoMatch\<close> and \<open>AmbiguousMatch\<close> are both Python's
  \<^verbatim>\<open>ValueError\<close>: the first with the message \<^verbatim>\<open>There is no FAS account that matches ...\<close>
  (it keeps the search string and the \<^verbatim>\<open>by_email\<close> flag), the second with
  \<^verbatim>\<open>The provided ..., returns multiple users in the search\<close> (it keeps the nickname or
  email). \<open>AttributeError\<close> is \<^verbatim>\<open>None.get\<close>, \<open>KeyError\<close> a missing dictionary key,
  \<open>IndexError\<close> an index into an empty list, and \<open>ClientError\<close> whatever the
  directory client raises.
\<close>

datatype error =
    NoMatch string bool
  | AmbiguousMatch string
  | KeyError string
  | AttributeError
  | IndexError
  | ClientError string

text \<open>
  The remote directory: its answer to a request, which may depend on the requests it
  has served before.
\<close>

type_synonym directory = "request list \<Rightarrow> request \<Rightarrow> error + response"

text \<open>
  The state of the module: the contents of \<^verbatim>\<open>fas_region\<close> (the in-memory dictionary
  backend, which never expires or evicts an entry) and the requests sent to the
  directory so far, oldest first.
\<close>

record state =
  cache :: "string \<rightharpoonup> string"
  requests :: "request list"

text \<open>
  The positional arguments that reach the key generator of the cache region, and Python's
  \<^verbatim>\<open>str\<close> of each. The \<^verbatim>\<open>str\<close> of a dictionary lists its items in insertion order
  (Python 3.7 and later) with the \<^verbatim>\<open>repr\<close> of every key and value. The \<^verbatim>\<open>repr\<close> of a
  string is written in single quotes, or in double quotes when the string has a single
  quote and no double quote; a backslash and the quote in use are escaped, tab, newline
  and carriage return become \<^verbatim>\<open>\t\<close>, \<^verbatim>\<open>\n\<close>, \<^verbatim>\<open>\r\<close>, and every other control
  character becomes \<^verbatim>\<open>\xNN\<close> in lower-case hexadecimal. Bytes from 128 on are kept,
  which is exact for printable non-ASCII text.
\<close>

datatype arg = AStr string | ANone | ADict credentials

definition repr_quote :: "string \<Rightarrow> char" where
  "repr_quote s = (if CHR 39 \<in> set s \<and> CHR 34 \<notin> set s then CHR 34 else CHR 39)"

definition lower_hex_digit :: "nat \<Rightarrow> char" where
  "lower_hex_digit d = (''0123456789abcdef'') ! (d mod 16)"

definition repr_char :: "char \<Rightarrow> char \<Rightarrow> string" where
  "repr_char q c =
     (if c = CHR 92 then [CHR 92, CHR 92]
      else if c = q then [CHR 92, q]
      else if c = CHR 9 then [CHR 92, CHR ''t'']
      else if c = CHR 10 then [CHR 92, CHR ''n'']
      else if c = CHR 13 then [CHR 92, CHR ''r'']
      else if (of_char c :: nat) < 32 \<or> (of_char c :: nat) = 127
        then [CHR 92, CHR ''x'', lower_hex_digit (of_char c div 16), lower_hex_digit (of_char c mod 16)]
      else [c])"

definition repr_str :: "string \<Rightarrow> string" where
  "repr_str s = (let q = repr_quote s in [q] @ concat (map (repr_char q) s) @ [q])"

definition str_dict :: "credentials \<Rightarrow> string" where
  "str_dict d = ''{'' @ join '', '' (map (\<lambda>(k, v). repr_str k @ '': '' @ repr_str v) d) @ ''}''"

fun to_str :: "arg \<Rightarrow> string" where
  "to_str (AStr s) = s"
| "to_str ANone = ''None''"
| "to_str (ADict d) = str_dict d"

text \<open>
  \<^verbatim>\<open>fas_region.function_key_generator(None, fn)\<close>, the default key generator of
  dogpile.cache, the same in every release of the library: the key of a call is
  \<^verbatim>\<open>module:name|\<close> followed by the \<^verbatim>\<open>str\<close> of the positional arguments it is given,
  joined by single spaces. \<open>fn_name\<close> is \<^verbatim>\<open>fn.__name__\<close>.
\<close>

definition function_key_generator :: "string \<Rightarrow> arg list \<Rightarrow> string" where
  "function_key_generator fn_name args =
     ''fedmsg_meta_fedora_infrastructure.fasshim:'' @ fn_name @ ''|'' @ join '' '' (map to_str args)"

definition email_key_func :: "string \<Rightarrow> string" where
  "email_key_func e = function_key_generator ''email2fas'' [AStr e]"

definition nick_key_func :: "string \<Rightarrow> string" where
  "nick_key_func n = function_key_generator ''nick2fas'' [AStr n]"

text \<open>Python's truth value of \<^verbatim>\<open>response.get(key)\<close>: absent, \<^verbatim>\<open>None\<close> and the empty
  string are false.\<close>

fun truthy :: "string option \<Rightarrow> bool" where
  "truthy None = False"
| "truthy (Some s) = (s \<noteq> [])"

text \<open>
  The warming loop of \<^verbatim>\<open>_search_fas\<close>, one step per person of the response. The body
  reads the top-level keys of the response; \<^verbatim>\<open>response['username']\<close> raises
  \<open>KeyError\<close> when the key is missing. A write made before an exception stays in the
  cache, so the cache is returned with the error.
\<close>

definition warm_person :: "response \<Rightarrow> string \<Rightarrow> (string \<rightharpoonup> string) \<Rightarrow> (string \<rightharpoonup> string)" where
  "warm_person resp fasname c =
     (let c1 = (if truthy (email resp) then c(email_key_func (the (email resp)) \<mapsto> fasname) else c);
          c2 = (if truthy (ircnick resp) then c1(nick_key_func (the (ircnick resp)) \<mapsto> fasname) else c1)
      in c2)"

fun warm_cache :: "response \<Rightarrow> person list \<Rightarrow> (string \<rightharpoonup> string) \<Rightarrow> error option \<times> (string \<rightharpoonup> string)" where
  "warm_cache resp [] c = (None, c)"
| "warm_cache resp (p # rest) c =
     (case username resp of
        None \<Rightarrow> (Some (KeyError ''username''), c)
      | Some fasname \<Rightarrow> warm_cache resp rest (warm_person resp fasname c))"

text \<open>
  The head of \<^verbatim>\<open>_search_fas\<close>: the client is built from the credentials
  (\<^verbatim>\<open>base_url\<close> with its default, \<^verbatim>\<open>username\<close> and \<^verbatim>\<open>password\<close>, which must be
  present), and the request parameters from the search string and \<^verbatim>\<open>by_email\<close>.
\<close>

definition fas_request :: "credentials \<Rightarrow> string \<Rightarrow> bool \<Rightarrow> error + request" where
  "fas_request creds search_string by_email =
     (let url = (case map_of creds ''base_url'' of
                   Some u \<Rightarrow> u
                 | None \<Rightarrow> ''https://admin.fedoraproject.org/accounts/'')
      in case map_of creds ''username'' of
           None \<Rightarrow> Inl (KeyError ''username'')
         | Some user \<Rightarrow>
             (case map_of creds ''password'' of
                None \<Rightarrow> Inl (KeyError ''password'')
              | Some pw \<Rightarrow>
                  Inr \<lparr>req_base_url = url, req_username = user, req_password = pw,
                       req_search = search_string, req_by_email = by_email\<rparr>))"

text \<open>
  \<^verbatim>\<open>_search_fas\<close>: the request is sent and logged; an exception of the client
  propagates; an empty list of people raises \<open>NoMatch\<close> before the warming loop; otherwise
  the loop runs and the list of people is returned.
\<close>

definition search_fas :: "directory \<Rightarrow> string \<Rightarrow> credentials option \<Rightarrow> bool \<Rightarrow> state
    \<Rightarrow> (error + person list) \<times> state" where
  "search_fas fas search_string fas_credentials by_email st =
     (case fas_credentials of
        None \<Rightarrow> (Inl AttributeError, st)
      | Some creds \<Rightarrow>
          (case fas_request creds search_string by_email of
             Inl e \<Rightarrow> (Inl e, st)
           | Inr req \<Rightarrow>
               let st1 = st\<lparr>requests := requests st @ [req]\<rparr>
               in
               (case fas (requests st) req of
                  Inl e \<Rightarrow> (Inl e, st1)
                | Inr resp \<Rightarrow>
                    if people resp = [] then (Inl (NoMatch search_string by_email), st1)
                    else
                      (case warm_cache resp (people resp) (cache st1) of
                         (Some e, c) \<Rightarrow> (Inl e, st1\<lparr>cache := c\<rparr>)
                       | (None, c) \<Rightarrow> (Inr (people resp), st1\<lparr>cache := c\<rparr>)))))"

text \<open>
  The decorator \<^verbatim>\<open>@fas_region.cache_on_arguments()\<close>: the key is generated from the
  positional arguments of the call; a value stored under the key is returned without
  running the function; otherwise the function runs, and its result is stored under the
  key unless it raised.
\<close>

definition cache_on_arguments :: "string \<Rightarrow> arg list \<Rightarrow> (state \<Rightarrow> (error + string) \<times> state)
    \<Rightarrow> state \<Rightarrow> (error + string) \<times> state" where
  "cache_on_arguments fn_name args creator st =
     (let key = function_key_generator fn_name args
      in case cache st key of
           Some v \<Rightarrow> (Inr v, st)
         | None \<Rightarrow>
             (case creator st of
                (Inl e, st') \<Rightarrow> (Inl e, st')
              | (Inr v, st') \<Rightarrow> (Inr v, st'\<lparr>cache := (cache st')(key \<mapsto> v)\<rparr>)))"

text \<open>
  The \<^verbatim>\<open>fas_credentials\<close> of a call, as they reach the key generator and the function.
  Which call is which depends on the release of dogpile.cache:
  \<^item> \<open>Positional (Some d)\<close>: the dictionary \<open>d\<close> is the second argument of the key
    generator. In every release this is the call \<^verbatim>\<open>f(x, d)\<close>; from release 0.7 on,
    where the decorator binds the arguments to the signature of the function, it is also
    the call \<^verbatim>\<open>f(x, fas_credentials=d)\<close>.
  \<^item> \<open>Positional None\<close>: \<^verbatim>\<open>None\<close> is the second argument of the key generator. In every
    release this is the call \<^verbatim>\<open>f(x, None)\<close>; from release 0.7 on it is also the call
    \<^verbatim>\<open>f(x)\<close>, whose default is filled in.
  \<^item> \<open>Omitted\<close>: the key generator is given the first argument alone, and the function
    takes its default \<^verbatim>\<open>None\<close>. This is the call \<^verbatim>\<open>f(x)\<close> in the releases before
    0.7 only.
  In the releases before 0.7 the key generator raises on any keyword argument; those
  calls are not modelled.
\<close>

datatype cred_arg = Omitted | Positional "credentials option"

fun cred_value :: "cred_arg \<Rightarrow> credentials option" where
  "cred_value Omitted = None"
| "cred_value (Positional c) = c"

fun cred_args :: "cred_arg \<Rightarrow> arg list" where
  "cred_args Omitted = []"
| "cred_args (Positional None) = [ANone]"
| "cred_args (Positional (Some d)) = [ADict d]"

text \<open>The tail of \<^verbatim>\<open>nick2fas\<close> and \<^verbatim>\<open>email2fas\<close>: the length check and
  \<^verbatim>\<open>people[0]['username']\<close>.\<close>

definition single_username :: "string \<Rightarrow> person list \<Rightarrow> error + string" where
  "single_username what ps =
     (if length ps > 1 then Inl (AmbiguousMatch what)
      else case ps of
             [] \<Rightarrow> Inl IndexError
           | p # _ \<Rightarrow> (case person_username p of
                          None \<Rightarrow> Inl (KeyError ''username'')
                        | Some u \<Rightarrow> Inr u))"

definition nick2fas_body :: "directory \<Rightarrow> string \<Rightarrow> credentials option \<Rightarrow> state
    \<Rightarrow> (error + string) \<times> state" where
  "nick2fas_body fas nickname fas_credentials st =
     (case search_fas fas nickname fas_credentials False st of
        (Inl e, st') \<Rightarrow> (Inl e, st')
      | (Inr ps, st') \<Rightarrow> (single_username nickname ps, st'))"

definition nick2fas :: "directory \<Rightarrow> string \<Rightarrow> cred_arg \<Rightarrow> state \<Rightarrow> (error + string) \<times> state" where
  "nick2fas fas nickname c =
     cache_on_arguments ''nick2fas'' (AStr nickname # cred_args c)
       (nick2fas_body fas nickname (cred_value c))"

text \<open>\<^verbatim>\<open>s.endswith(suffix)\<close> and \<^verbatim>\<open>s.rsplit(sep, 1)[0]\<close> for a one-character separator:
  the text before the last occurrence of the separator, or all of \<open>s\<close> when there is none.\<close>

definition endswith :: "string \<Rightarrow> string \<Rightarrow> bool" where
  "endswith s suffix = (length suffix \<le> length s \<and> drop (length s - length suffix) s = suffix)"

fun rsplit1_head :: "char \<Rightarrow> string \<Rightarrow> string" where
  "rsplit1_head sep [] = []"
| "rsplit1_head sep (c # cs) =
     (if sep \<in> set cs then c # rsplit1_head sep cs
      else if c = sep then []
      else c # cs)"

definition email2fas_body :: "directory \<Rightarrow> string \<Rightarrow> credentials option \<Rightarrow> state
    \<Rightarrow> (error + string) \<times> state" where
  "email2fas_body fas em fas_credentials st =
     (if endswith em ''@fedoraproject.org'' then (Inr (rsplit1_head CHR ''@'' em), st)
      else
        (case search_fas fas em fas_credentials True st of
           (Inl e, st') \<Rightarrow> (Inl e, st')
         | (Inr ps, st') \<Rightarrow> (single_username em ps, st')))"

definition email2fas :: "directory \<Rightarrow> string \<Rightarrow> cred_arg \<Rightarrow> state \<Rightarrow> (error + string) \<times> state" where
  "email2fas fas em c =
     cache_on_arguments ''email2fas'' (AStr em # cred_args c)
       (email2fas_body fas em (cred_value c))"

text \<open>A call of the public interface, and a sequential run of calls.\<close>

datatype call = Nick2fas string cred_arg | Email2fas string cred_arg

fun run :: "directory \<Rightarrow> call \<Rightarrow> state \<Rightarrow> (error + string) \<times> state" where
  "run fas (Nick2fas n c) st = nick2fas fas n c st"
| "run fas (Email2fas e c) st = email2fas fas e c st"

fun run_all :: "directory \<Rightarrow> call list \<Rightarrow> state \<Rightarrow> state" where
  "run_all fas [] st = st"
| "run_all fas (x # xs) st = run_all fas xs (snd (run fas x st))"

definition empty_state :: state where
  "empty_state = \<lparr>cache = Map.empty, requests = []\<rparr>"

text \<open>The cache key under which the decorator files a call.\<close>

fun call_key :: "call \<Rightarrow> string" where
  "call_key (Nick2fas n c) = function_key_generator ''nick2fas'' (AStr n # cred_args c)"
| "call_key (Email2fas e c) = function_key_generator ''email2fas'' (AStr e # cred_args c)"

subsection \<open>Example inputs\<close>

text \<open>
  A credentials dictionary and the request built from it, two people, a directory that
  answers every request with the same response, and three responses: one that repeats
  the first person's fields at its top level, one whose top-level email is a
  fedoraproject.org address followed by a space and the \<^verbatim>\<open>str\<close> of the credentials, and
  one without people.
\<close>

definition bot_credentials :: credentials where
  "bot_credentials = [(''username'', ''bot''), (''password'', ''secret'')]"

definition bob :: person where
  "bob = \<lparr>person_username = Some ''robert'', person_email = Some ''bob@example.com'',
          person_ircnick = Some ''bobby''\<rparr>"

definition alice :: person where
  "alice = \<lparr>person_username = Some ''alice'', person_email = Some ''alice@example.com'',
            person_ircnick = Some ''al''\<rparr>"

definition answering :: "response \<Rightarrow> directory" where
  "answering resp = (\<lambda>served req. Inr resp)"

definition bob_response :: "person list \<Rightarrow> response" where
  "bob_response ps = \<lparr>people = ps, username = Some ''robert'', email = Some ''bob@example.com'',
                       ircnick = Some ''bobby''\<rparr>"



definition bot_request :: "string \<Rightarrow> bool \<Rightarrow> request" where
  "bot_request x by_email = \<lparr>req_base_url = ''https://admin.fedoraproject.org/accounts/'',
      req_username = ''bot'', req_password = ''secret'', req_search = x, req_by_email = by_email\<rparr>"

definition nobody :: response where
  "nobody = \<lparr>people = [], username = None, email = None, ircnick = None\<rparr>"

section \<open>Avatar URLs: properties\<close>

lemma digit_char_safe: "d < 10 \<Longrightarrow> always_safe (digit_char d)"
proof -
  assume "d < 10"
  then have "d \<in> {0, 1, 2, 3, 4, 5, 6, 7, 8, 9}" by auto
  then show ?thesis
    by (auto simp: digit_char_def always_safe_def)
qed

lemma str_nat_safe: "\<forall>c \<in> set (str_nat n). always_safe c"
proof (induction n rule: str_nat.induct)
  case (1 n)
  show ?case
  proof (cases "n < 10")
    case True
    then show ?thesis by (simp add: str_nat.simps [of n] digit_char_safe)
  next
    case False
    then show ?thesis using 1 by (simp add: str_nat.simps [of n] digit_char_safe)
  qed
qed

lemma quote_plus_safe: "\<forall>c \<in> set s. always_safe c \<Longrightarrow> quote_plus s = s"
  by (induction s) (simp_all add: quote_plus_def quote_char_def)

lemma minus_safe: "always_safe CHR ''-''"
  by (simp add: always_safe_def)

lemma quote_plus_str_int: "quote_plus (str_int i) = str_int i"
  by (rule quote_plus_safe) (simp add: str_int_def str_nat_safe minus_safe)

text \<open>
  C5. For a user name that is a key of \<^verbatim>\<open>hardcoded_avatars\<close>, \<^verbatim>\<open>avatar_url\<close> returns
  the template of that key formatted with the size, that is one of the three icon URLs
  with the decimal size in place of \<^verbatim>\<open>{size}\<close>. The result is the same for every
  default and for every digest function: nothing is hashed.
\<close>

theorem avatar_url_hardcoded:
  assumes "map_of hardcoded_avatars u = Some template"
  shows "avatar_url lib u sz dflt = format_size template (str_int sz)
     \<and> avatar_url lib' u sz dflt' = avatar_url lib u sz dflt
     \<and> avatar_url lib u sz dflt \<in>
         {''https://apps.fedoraproject.org/img/icons/bodhi-'' @ str_int sz @ ''.png'',
          ''https://apps.fedoraproject.org/img/icons/koschei-'' @ str_int sz @ ''.png'',
          ''https://apps.fedoraproject.org/img/icons/taskotron-'' @ str_int sz @ ''.png''}"
  using assms by (auto simp: avatar_url_def hardcoded_avatars_def split: if_splits)

theorem avatar_url_hardcoded_witness:
  "map_of hardcoded_avatars ''bodhi'' = Some ''https://apps.fedoraproject.org/img/icons/bodhi-{size}.png''
   \<and> (\<forall>lib dflt. avatar_url lib ''bodhi'' 64 dflt = ''https://apps.fedoraproject.org/img/icons/bodhi-64.png'')"
proof -
  have h: "map_of hardcoded_avatars ''bodhi'' = Some ''https://apps.fedoraproject.org/img/icons/bodhi-{size}.png''"
    by (simp add: hardcoded_avatars_def)
  have s: "str_int 64 = ''64''" by (simp add: str_int_def str_nat.simps digit_char_def)
  show ?thesis using h avatar_url_hardcoded [OF h, of _ 64] by (simp add: s)
qed

text \<open>
  C6. Without DNS, \<^verbatim>\<open>avatar_url_from_openid\<close> returns
  \<^verbatim>\<open>https://seccdn.libravatar.org/avatar/\<close>, the SHA-256 hex digest of the OpenID, \<^verbatim>\<open>?\<close>
  and the query \<^verbatim>\<open>s=\<close>size\<^verbatim>\<open>&d=\<close>default, in this order, the default URL-quoted. The
  result is a function of the arguments and of the SHA-256 primitive alone: the MD5
  primitive and the federated resolver do not enter it.
\<close>

theorem avatar_url_from_openid_no_dns:
  "avatar_url_from_openid lib openid sz dflt False =
     ''https://seccdn.libravatar.org/avatar/'' @ sha256_hexdigest lib openid
       @ ''?s='' @ str_int sz @ ''&d='' @ quote_plus dflt
   \<and> avatar_url_from_openid (lib\<lparr>md5_hexdigest := m, libravatar_url := l\<rparr>) openid sz dflt False =
       avatar_url_from_openid lib openid sz dflt False"
  by (simp add: avatar_url_from_openid_def ordered_query_params_def urlencode_def
      quote_plus_str_int) (simp add: quote_plus_def quote_char_def always_safe_def)

text \<open>
  C7. Without DNS, \<^verbatim>\<open>avatar_url_from_email\<close> returns a URL of the same shape, with the
  MD5 hex digest of the email in place of the SHA-256 digest; the SHA-256 primitive
  does not enter the result.
\<close>

theorem avatar_url_from_email_no_dns:
  "avatar_url_from_email lib em sz dflt False =
     ''https://seccdn.libravatar.org/avatar/'' @ md5_hexdigest lib em
       @ ''?s='' @ str_int sz @ ''&d='' @ quote_plus dflt
   \<and> avatar_url_from_email (lib\<lparr>sha256_hexdigest := h, libravatar_url := l\<rparr>) em sz dflt False =
       avatar_url_from_email lib em sz dflt False"
  by (simp add: avatar_url_from_email_def ordered_query_params_def urlencode_def
      quote_plus_str_int) (simp add: quote_plus_def quote_char_def always_safe_def)

section \<open>Directory lookups: properties\<close>



lemma positional_key_differs:
  "function_key_generator f (AStr e # cred_args (Positional c)) \<noteq> function_key_generator f [AStr e]"
  by (cases c) (simp_all add: function_key_generator_def)

lemma warm_person_idem: "warm_person resp u (warm_person resp u c) = warm_person resp u c"
  by (auto simp: warm_person_def Let_def fun_upd_twist)

lemma warm_cache_username:
  "username resp = Some u \<Longrightarrow> ps \<noteq> [] \<Longrightarrow> warm_cache resp ps c = (None, warm_person resp u c)"
proof (induction ps arbitrary: c)
  case Nil
  then show ?case by simp
next
  case (Cons p ps)
  show ?case
  proof (cases ps)
    case Nil
    then show ?thesis using Cons.prems by simp
  next
    case (Cons q qs)
    then have "warm_cache resp ps (warm_person resp u c) = (None, warm_person resp u (warm_person resp u c))"
      using Cons.IH Cons.prems by blast
    then show ?thesis using Cons.prems by (simp add: warm_person_idem)
  qed
qed

lemma warm_cache_no_username:
  "username resp = None \<Longrightarrow> ps \<noteq> [] \<Longrightarrow> warm_cache resp ps c = (Some (KeyError ''username''), c)"
  by (cases ps) simp_all

lemma search_fas_found:
  assumes "fas_request creds x by_email = Inr req"
    and "fas (requests s) req = Inr resp"
    and "people resp \<noteq> []"
    and "username resp = Some u"
  shows "search_fas fas x (Some creds) by_email s =
           (Inr (people resp),
            s\<lparr>requests := requests s @ [req], cache := warm_person resp u (cache s)\<rparr>)"
  using assms by (simp add: search_fas_def warm_cache_username)

lemma search_fas_empty:
  assumes "fas_request creds x by_email = Inr req"
    and "fas (requests s) req = Inr resp"
    and "people resp = []"
  shows "search_fas fas x (Some creds) by_email s =
           (Inl (NoMatch x by_email), s\<lparr>requests := requests s @ [req]\<rparr>)"
  using assms by (simp add: search_fas_def)

lemma cache_on_arguments_hit:
  "cache st (function_key_generator f args) = Some v \<Longrightarrow>
   cache_on_arguments f args creator st = (Inr v, st)"
  by (simp add: cache_on_arguments_def)

lemma cache_on_arguments_miss_error:
  "cache st (function_key_generator f args) = None \<Longrightarrow> creator st = (Inl e, st') \<Longrightarrow>
   cache_on_arguments f args creator st = (Inl e, st')"
  by (simp add: cache_on_arguments_def)

lemma cache_on_arguments_miss_value:
  "cache st (function_key_generator f args) = None \<Longrightarrow> creator st = (Inr v, st') \<Longrightarrow>
   cache_on_arguments f args creator st =
     (Inr v, st'\<lparr>cache := (cache st')(function_key_generator f args \<mapsto> v)\<rparr>)"
  by (simp add: cache_on_arguments_def)

lemma fas_request_bot: "fas_request bot_credentials x b = Inr (bot_request x b)"
  by (simp add: fas_request_def bot_credentials_def bot_request_def)



lemma email2fas_body_fedora:
  "endswith e ''@fedoraproject.org'' \<Longrightarrow>
   email2fas_body fas e fc s = (Inr (rsplit1_head CHR ''@'' e), s)"
  by (simp add: email2fas_body_def)

text \<open>
  C8. When the directory answers a search with no people, \<^verbatim>\<open>_search_fas\<close> raises
  \<open>NoMatch\<close> (a \<^verbatim>\<open>ValueError\<close>) after sending the request; a call of \<^verbatim>\<open>nick2fas\<close> or
  \<^verbatim>\<open>email2fas\<close> that reaches the search (its key is not cached, and the email is not a
  fedoraproject.org address) returns the same error with the same state; the cache of
  that state is the cache before the call.
\<close>

theorem search_fas_no_match:
  assumes "fas_request creds x by_email = Inr req"
    and "fas (requests s) req = Inr resp"
    and "people resp = []"
    and "by_email \<longrightarrow> \<not> endswith x ''@fedoraproject.org''"
    and "cache s (function_key_generator (if by_email then ''email2fas'' else ''nick2fas'')
           [AStr x, ADict creds]) = None"
  shows "search_fas fas x (Some creds) by_email s =
           (Inl (NoMatch x by_email), s\<lparr>requests := requests s @ [req]\<rparr>)
     \<and> (if by_email then email2fas fas x (Positional (Some creds)) s
         else nick2fas fas x (Positional (Some creds)) s) =
           (Inl (NoMatch x by_email), s\<lparr>requests := requests s @ [req]\<rparr>)
     \<and> cache (s\<lparr>requests := requests s @ [req]\<rparr>) = cache s"
proof -
  have a: "search_fas fas x (Some creds) by_email s =
           (Inl (NoMatch x by_email), s\<lparr>requests := requests s @ [req]\<rparr>)"
    using search_fas_empty [where fas = fas and s = s, OF assms(1-3)] .
  show ?thesis
  proof (cases by_email)
    case True
    then have "email2fas_body fas x (Some creds) s =
        (Inl (NoMatch x True), s\<lparr>requests := requests s @ [req]\<rparr>)"
      using a assms(4) by (simp add: email2fas_body_def)
    then show ?thesis using a True assms(5)
      by (simp add: email2fas_def cache_on_arguments_miss_error)
  next
    case False
    then have "nick2fas_body fas x (Some creds) s =
        (Inl (NoMatch x False), s\<lparr>requests := requests s @ [req]\<rparr>)"
      using a by (simp add: nick2fas_body_def)
    then show ?thesis using a False assms(5)
      by (simp add: nick2fas_def cache_on_arguments_miss_error)
  qed
qed

theorem search_fas_no_match_witness:
  "nick2fas (answering nobody) ''bobby'' (Positional (Some bot_credentials)) empty_state =
     (Inl (NoMatch ''bobby'' False), empty_state\<lparr>requests := [bot_request ''bobby'' False]\<rparr>)"
proof -
  have 1: "fas_request bot_credentials ''bobby'' False = Inr (bot_request ''bobby'' False)"
    by (rule fas_request_bot)
  have 2: "answering nobody (requests empty_state) (bot_request ''bobby'' False) = Inr nobody"
    by (simp add: answering_def)
  have 3: "people nobody = []" by (simp add: nobody_def)
  have 4: "False \<longrightarrow> \<not> endswith ''bobby'' ''@fedoraproject.org''" by simp
  have 5: "cache empty_state (function_key_generator (if False then ''email2fas'' else ''nick2fas'')
           [AStr ''bobby'', ADict bot_credentials]) = None"
    by (simp add: empty_state_def)
  show ?thesis using search_fas_no_match [where fas = "answering nobody" and s = empty_state, OF 1 2 3 4 5] by (simp add: empty_state_def)
qed

lemma warm_person_apply:
  "warm_person resp u c =
     (\<lambda>k. if truthy (ircnick resp) \<and> k = function_key_generator ''nick2fas'' [AStr (the (ircnick resp))]
            then Some u
          else if truthy (email resp) \<and> k = function_key_generator ''email2fas'' [AStr (the (email resp))]
            then Some u
          else c k)"
  by (auto simp: warm_person_def Let_def email_key_func_def nick_key_func_def)

lemma warm_person_changed:
  "{k. warm_person resp u c k \<noteq> c k} \<subseteq>
     (case email resp of Some e \<Rightarrow> {email_key_func e} | None \<Rightarrow> {})
     \<union> (case ircnick resp of Some n \<Rightarrow> {nick_key_func n} | None \<Rightarrow> {})"
  by (auto simp: warm_person_def Let_def split: option.splits if_splits)

lemma warm_person_card: "card {k. warm_person resp u c k \<noteq> c k} \<le> 2"
proof -
  let ?W = "(case email resp of Some e \<Rightarrow> {email_key_func e} | None \<Rightarrow> {})
     \<union> (case ircnick resp of Some n \<Rightarrow> {nick_key_func n} | None \<Rightarrow> {})"
  have f: "finite ?W" by (simp split: option.splits)
  have "card ?W \<le> 2"
    by (cases "email resp"; cases "ircnick resp") (simp_all add: card_insert_if)
  moreover have "card {k. warm_person resp u c k \<noteq> c k} \<le> card ?W"
    using warm_person_changed f by (rule card_mono [rotated])
  ultimately show ?thesis by simp
qed

text \<open>
  C10. After a search that succeeds, the cache is the cache before with at most two
  entries written: the key of \<^verbatim>\<open>email2fas\<close> for the top-level \<^verbatim>\<open>email\<close> of the
  response and the key of \<^verbatim>\<open>nick2fas\<close> for its top-level \<^verbatim>\<open>ircnick\<close>, each generated
  from that one string without the credentials, both mapped to the top-level
  \<^verbatim>\<open>username\<close>. The people of the response do not enter the result: replacing them by
  any other list leaves the written entries the same.
\<close>

theorem search_fas_warms_top_level:
  assumes "fas_request creds x by_email = Inr req"
    and "fas (requests s) req = Inr resp"
    and "people resp \<noteq> []"
    and "username resp = Some u"
  shows "search_fas fas x (Some creds) by_email s =
           (Inr (people resp),
            s\<lparr>requests := requests s @ [req], cache := warm_person resp u (cache s)\<rparr>)
     \<and> warm_person resp u (cache s) =
         (\<lambda>k. if truthy (ircnick resp) \<and> k = function_key_generator ''nick2fas'' [AStr (the (ircnick resp))]
                then Some u
              else if truthy (email resp) \<and> k = function_key_generator ''email2fas'' [AStr (the (email resp))]
                then Some u
              else cache s k)
     \<and> warm_person (resp\<lparr>people := ps\<rparr>) u (cache s) = warm_person resp u (cache s)
     \<and> card {k. warm_person resp u (cache s) k \<noteq> cache s k} \<le> 2"
proof -
  have "warm_person (resp\<lparr>people := ps\<rparr>) u (cache s) = warm_person resp u (cache s)"
    by (simp add: warm_person_def Let_def)
  then show ?thesis
    using search_fas_found [where fas = fas and s = s, OF assms] warm_person_apply [of resp u "cache s"]
      warm_person_card [of resp u "cache s"] by blast
qed

theorem search_fas_warms_top_level_witness:
  "search_fas (answering (bob_response [bob, alice])) ''bobby'' (Some bot_credentials) False empty_state =
     (Inr [bob, alice],
      \<lparr>cache = [email_key_func ''bob@example.com'' \<mapsto> ''robert'', nick_key_func ''bobby'' \<mapsto> ''robert''],
       requests = [bot_request ''bobby'' False]\<rparr>)"
proof -
  have 1: "fas_request bot_credentials ''bobby'' False = Inr (bot_request ''bobby'' False)"
    by (rule fas_request_bot)
  have 2: "answering (bob_response [bob, alice]) (requests empty_state) (bot_request ''bobby'' False)
      = Inr (bob_response [bob, alice])"
    by (simp add: answering_def)
  have 3: "people (bob_response [bob, alice]) \<noteq> []" by (simp add: bob_response_def)
  have 4: "username (bob_response [bob, alice]) = Some ''robert''" by (simp add: bob_response_def)
  show ?thesis
    using search_fas_warms_top_level [where fas = "answering (bob_response [bob, alice])"
        and s = empty_state, OF 1 2 3 4]
    by (simp add: empty_state_def bob_response_def warm_person_def)
qed


lemma single_username_many: "2 \<le> length ps \<Longrightarrow> single_username x ps = Inl (AmbiguousMatch x)"
  by (simp add: single_username_def)

text \<open>
  C2, as stated, fails: with two people in the response, \<^verbatim>\<open>nick2fas\<close> raises
  \<open>AmbiguousMatch\<close>, but the warming loop of \<^verbatim>\<open>_search_fas\<close> has already run, and the
  cache after the call differs from the cache before.
\<close>

theorem ambiguous_match_counterexample:
  "fst (nick2fas (answering (bob_response [bob, alice])) ''bobby'' (Positional (Some bot_credentials))
         empty_state) = Inl (AmbiguousMatch ''bobby'')
   \<and> cache (snd (nick2fas (answering (bob_response [bob, alice])) ''bobby''
         (Positional (Some bot_credentials)) empty_state)) \<noteq> cache empty_state"
proof -
  have 1: "fas_request bot_credentials ''bobby'' False = Inr (bot_request ''bobby'' False)"
    by (rule fas_request_bot)
  have 2: "answering (bob_response [bob, alice]) (requests empty_state) (bot_request ''bobby'' False)
      = Inr (bob_response [bob, alice])"
    by (simp add: answering_def)
  have 3: "people (bob_response [bob, alice]) \<noteq> []" by (simp add: bob_response_def)
  have 4: "username (bob_response [bob, alice]) = Some ''robert''" by (simp add: bob_response_def)
  have s: "search_fas (answering (bob_response [bob, alice])) ''bobby'' (Some bot_credentials) False empty_state =
     (Inr (people (bob_response [bob, alice])),
      empty_state\<lparr>requests := requests empty_state @ [bot_request ''bobby'' False],
         cache := warm_person (bob_response [bob, alice]) ''robert'' (cache empty_state)\<rparr>)"
    using search_fas_found [where fas = "answering (bob_response [bob, alice])"
        and s = empty_state, OF 1 2 3 4] .
  have m: "cache empty_state (function_key_generator ''nick2fas''
             (AStr ''bobby'' # cred_args (Positional (Some bot_credentials)))) = None"
    by (simp add: empty_state_def)
  have b: "nick2fas_body (answering (bob_response [bob, alice])) ''bobby'' (Some bot_credentials) empty_state =
     (Inl (AmbiguousMatch ''bobby''),
      empty_state\<lparr>requests := requests empty_state @ [bot_request ''bobby'' False],
         cache := warm_person (bob_response [bob, alice]) ''robert'' (cache empty_state)\<rparr>)"
  proof -
    have "2 \<le> length (people (bob_response [bob, alice]))" by (simp add: bob_response_def)
    then show ?thesis by (simp add: nick2fas_body_def s single_username_many)
  qed
  have r: "nick2fas (answering (bob_response [bob, alice])) ''bobby'' (Positional (Some bot_credentials))
         empty_state = (Inl (AmbiguousMatch ''bobby''),
      empty_state\<lparr>requests := requests empty_state @ [bot_request ''bobby'' False],
         cache := warm_person (bob_response [bob, alice]) ''robert'' (cache empty_state)\<rparr>)"
    unfolding nick2fas_def using m b by (simp add: cache_on_arguments_miss_error)
  have "warm_person (bob_response [bob, alice]) ''robert'' (cache empty_state) (nick_key_func ''bobby'')
      = Some ''robert''"
    by (simp add: warm_person_def bob_response_def)
  moreover have "cache empty_state (nick_key_func ''bobby'') = None"
    by (simp add: empty_state_def)
  ultimately have "warm_person (bob_response [bob, alice]) ''robert'' (cache empty_state) \<noteq> cache empty_state"
    by (metis option.distinct(1))
  then show ?thesis by (simp add: r)
qed

text \<open>
  C2, amended. When the response has two or more people and carries the top-level
  \<^verbatim>\<open>username\<close>, a call of \<^verbatim>\<open>nick2fas\<close> or \<^verbatim>\<open>email2fas\<close> that reaches the search raises
  \<open>AmbiguousMatch\<close>; the decorator stores nothing for the call, and the cache after the
  call is the cache before with the entries written by one pass of the warming loop of
  \<^verbatim>\<open>_search_fas\<close>, which runs before the number of people is checked.
\<close>

theorem ambiguous_match_after_warming:
  assumes "fas_request creds x by_email = Inr req"
    and "fas (requests s) req = Inr resp"
    and "2 \<le> length (people resp)"
    and "username resp = Some u"
    and "by_email \<longrightarrow> \<not> endswith x ''@fedoraproject.org''"
    and "cache s (function_key_generator (if by_email then ''email2fas'' else ''nick2fas'')
           [AStr x, ADict creds]) = None"
  shows "(if by_email then email2fas fas x (Positional (Some creds)) s
          else nick2fas fas x (Positional (Some creds)) s) =
           (Inl (AmbiguousMatch x),
            s\<lparr>requests := requests s @ [req], cache := warm_person resp u (cache s)\<rparr>)"
proof -
  have ne: "people resp \<noteq> []" using assms(3) by auto
  have a: "search_fas fas x (Some creds) by_email s =
           (Inr (people resp),
            s\<lparr>requests := requests s @ [req], cache := warm_person resp u (cache s)\<rparr>)"
    using search_fas_found [where fas = fas and s = s, OF assms(1,2) ne assms(4)] .
  show ?thesis
  proof (cases by_email)
    case True
    then have "email2fas_body fas x (Some creds) s =
        (Inl (AmbiguousMatch x),
            s\<lparr>requests := requests s @ [req], cache := warm_person resp u (cache s)\<rparr>)"
      using a assms(3,5) by (simp add: email2fas_body_def single_username_many)
    then show ?thesis using True assms(6)
      by (simp add: email2fas_def cache_on_arguments_miss_error)
  next
    case False
    then have "nick2fas_body fas x (Some creds) s =
        (Inl (AmbiguousMatch x),
            s\<lparr>requests := requests s @ [req], cache := warm_person resp u (cache s)\<rparr>)"
      using a assms(3) by (simp add: nick2fas_body_def single_username_many)
    then show ?thesis using False assms(6)
      by (simp add: nick2fas_def cache_on_arguments_miss_error)
  qed
qed

theorem ambiguous_match_after_warming_witness:
  "email2fas (answering (bob_response [bob, alice])) ''bob@example.com'' (Positional (Some bot_credentials))
         empty_state =
     (Inl (AmbiguousMatch ''bob@example.com''),
      \<lparr>cache = [email_key_func ''bob@example.com'' \<mapsto> ''robert'', nick_key_func ''bobby'' \<mapsto> ''robert''],
       requests = [bot_request ''bob@example.com'' True]\<rparr>)"
proof -
  have 1: "fas_request bot_credentials ''bob@example.com'' True = Inr (bot_request ''bob@example.com'' True)"
    by (rule fas_request_bot)
  have 2: "answering (bob_response [bob, alice]) (requests empty_state) (bot_request ''bob@example.com'' True)
      = Inr (bob_response [bob, alice])"
    by (simp add: answering_def)
  have 3: "2 \<le> length (people (bob_response [bob, alice]))" by (simp add: bob_response_def)
  have 4: "username (bob_response [bob, alice]) = Some ''robert''" by (simp add: bob_response_def)
  have 5: "True \<longrightarrow> \<not> endswith ''bob@example.com'' ''@fedoraproject.org''"
    by (simp add: endswith_def)
  have 6: "cache empty_state (function_key_generator (if True then ''email2fas'' else ''nick2fas'')
           [AStr ''bob@example.com'', ADict bot_credentials]) = None"
    by (simp add: empty_state_def)
  show ?thesis
    using ambiguous_match_after_warming [where fas = "answering (bob_response [bob, alice])"
        and s = empty_state, OF 1 2 3 4 5 6]
    by (simp add: empty_state_def bob_response_def warm_person_def)
qed

lemma single_username_one: "person_username p = Some v \<Longrightarrow> single_username x [p] = Inr v"
  by (simp add: single_username_def)

lemma lookup_single:
  assumes "fas_request creds x by_email = Inr req"
    and "fas (requests s) req = Inr resp"
    and "people resp = [p]"
    and "person_username p = Some v"
    and "username resp = Some u"
    and "by_email \<longrightarrow> \<not> endswith x ''@fedoraproject.org''"
    and "cache s (function_key_generator (if by_email then ''email2fas'' else ''nick2fas'')
           [AStr x, ADict creds]) = None"
  shows "(if by_email then email2fas fas x (Positional (Some creds)) s
          else nick2fas fas x (Positional (Some creds)) s) =
           (Inr v,
            s\<lparr>requests := requests s @ [req],
              cache := (warm_person resp u (cache s))
                (function_key_generator (if by_email then ''email2fas'' else ''nick2fas'')
                   [AStr x, ADict creds] \<mapsto> v)\<rparr>)"
proof -
  have ne: "people resp \<noteq> []" using assms(3) by simp
  have a: "search_fas fas x (Some creds) by_email s =
           (Inr [p], s\<lparr>requests := requests s @ [req], cache := warm_person resp u (cache s)\<rparr>)"
    using search_fas_found [where fas = fas and s = s, OF assms(1,2) ne assms(5)] assms(3) by simp
  show ?thesis
  proof (cases by_email)
    case True
    then have "email2fas_body fas x (cred_value (Positional (Some creds))) s =
        (Inr v, s\<lparr>requests := requests s @ [req], cache := warm_person resp u (cache s)\<rparr>)"
      using a assms(4,6) by (simp add: email2fas_body_def single_username_one)
    then show ?thesis using True assms(7)
      by (simp add: email2fas_def cache_on_arguments_miss_value)
  next
    case False
    then have "nick2fas_body fas x (cred_value (Positional (Some creds))) s =
        (Inr v, s\<lparr>requests := requests s @ [req], cache := warm_person resp u (cache s)\<rparr>)"
      using a assms(4) by (simp add: nick2fas_body_def single_username_one)
    then show ?thesis using False assms(7)
      by (simp add: nick2fas_def cache_on_arguments_miss_value)
  qed
qed




lemma str_dict_bot_credentials:
  "str_dict bot_credentials =
     ''{'' @ [CHR 39] @ ''username'' @ [CHR 39] @ '': '' @ [CHR 39] @ ''bot'' @ [CHR 39] @ '', ''
       @ [CHR 39] @ ''password'' @ [CHR 39] @ '': '' @ [CHR 39] @ ''secret'' @ [CHR 39] @ ''}''"
  by (simp add: str_dict_def bot_credentials_def repr_str_def repr_quote_def repr_char_def Let_def)






text \<open>
  C4, as stated, fails: from the empty cache,
  \<^verbatim>\<open>email2fas('jcline@fedoraproject.org', creds)\<close> leaves the local part stored under the
  key of the call.
\<close>

theorem email2fas_fedora_cache_counterexample:
  "endswith ''jcline@fedoraproject.org'' ''@fedoraproject.org''
   \<and> cache empty_state
        (call_key (Email2fas ''jcline@fedoraproject.org'' (Positional (Some bot_credentials)))) = None
   \<and> cache (snd (email2fas (answering nobody) ''jcline@fedoraproject.org''
          (Positional (Some bot_credentials)) empty_state))
        (call_key (Email2fas ''jcline@fedoraproject.org'' (Positional (Some bot_credentials))))
       = Some ''jcline''"
  by (simp add: endswith_def empty_state_def email2fas_def cache_on_arguments_def Let_def
      email2fas_body_def)

text \<open>
  C4, amended. For an email that ends in \<^verbatim>\<open>@fedoraproject.org\<close>, \<^verbatim>\<open>email2fas\<close> looks
  the key of the call up in the cache. On a hit it returns the cached value and changes
  nothing. On a miss the body returns the local part without a search, and the decorator
  stores it under the key of the call; every other entry of the cache and the request log
  stay as they were.
\<close>

theorem email2fas_fedora_cache:
  assumes "endswith e ''@fedoraproject.org''"
  shows "(\<forall>v. cache s (call_key (Email2fas e c)) = Some v \<longrightarrow> email2fas fas e c s = (Inr v, s))
     \<and> (cache s (call_key (Email2fas e c)) = None \<longrightarrow>
          email2fas fas e c s =
            (Inr (rsplit1_head CHR ''@'' e),
             s\<lparr>cache := (cache s)(call_key (Email2fas e c) \<mapsto> rsplit1_head CHR ''@'' e)\<rparr>))"
  using assms by (simp add: email2fas_def cache_on_arguments_def Let_def email2fas_body_fedora)

theorem email2fas_fedora_cache_witness:
  "endswith ''jcline@fedoraproject.org'' ''@fedoraproject.org''
   \<and> email2fas (answering nobody) ''jcline@fedoraproject.org'' (Positional (Some bot_credentials))
         empty_state =
       (Inr ''jcline'',
        \<lparr>cache = [call_key (Email2fas ''jcline@fedoraproject.org'' (Positional (Some bot_credentials)))
                    \<mapsto> ''jcline''],
         requests = []\<rparr>)"
proof -
  have h: "endswith ''jcline@fedoraproject.org'' ''@fedoraproject.org''"
    by (simp add: endswith_def)
  show ?thesis
    using h email2fas_fedora_cache [OF h, of empty_state "Positional (Some bot_credentials)"
        "answering nobody"]
    by (simp add: empty_state_def)
qed

lemma nick2fas_bob_state:
  "nick2fas (answering (bob_response [bob])) ''bobby'' (Positional (Some bot_credentials)) empty_state =
     (Inr ''robert'',
      \<lparr>cache = [email_key_func ''bob@example.com'' \<mapsto> ''robert'',
                nick_key_func ''bobby'' \<mapsto> ''robert'',
                function_key_generator ''nick2fas'' [AStr ''bobby'', ADict bot_credentials] \<mapsto> ''robert''],
       requests = [bot_request ''bobby'' False]\<rparr>)"
proof -
  have 1: "fas_request bot_credentials ''bobby'' False = Inr (bot_request ''bobby'' False)"
    by (rule fas_request_bot)
  have 2: "answering (bob_response [bob]) (requests empty_state) (bot_request ''bobby'' False)
      = Inr (bob_response [bob])"
    by (simp add: answering_def)
  have 3: "people (bob_response [bob]) = [bob]" by (simp add: bob_response_def)
  have 4: "person_username bob = Some ''robert''" by (simp add: bob_def)
  have 5: "username (bob_response [bob]) = Some ''robert''" by (simp add: bob_response_def)
  have 6: "False \<longrightarrow> \<not> endswith ''bobby'' ''@fedoraproject.org''" by simp
  have 7: "cache empty_state (function_key_generator (if False then ''email2fas'' else ''nick2fas'')
           [AStr ''bobby'', ADict bot_credentials]) = None"
    by (simp add: empty_state_def)
  show ?thesis
    using lookup_single [where fas = "answering (bob_response [bob])" and s = empty_state,
        OF 1 2 3 4 5 6 7]
    by (simp add: empty_state_def warm_person_def bob_response_def)
qed

text \<open>
  C1 at a concrete input. The directory answers every search with one person who has
  both an email and an IRC nickname, repeated at the top level of the response. After
  \<^verbatim>\<open>nick2fas('bobby', creds)\<close> has succeeded with one request, the cache holds the
  warmed entry under the key generated from the email alone, and nothing under the key
  of \<^verbatim>\<open>email2fas('bob@example.com', creds)\<close>, which includes the credentials. That
  call sends a second request.
\<close>

theorem nick2fas_then_email2fas_searches_again:
  "fst (nick2fas (answering (bob_response [bob])) ''bobby'' (Positional (Some bot_credentials))
         empty_state) = Inr ''robert''
   \<and> requests (snd (nick2fas (answering (bob_response [bob])) ''bobby''
         (Positional (Some bot_credentials)) empty_state)) = [bot_request ''bobby'' False]
   \<and> cache (snd (nick2fas (answering (bob_response [bob])) ''bobby''
         (Positional (Some bot_credentials)) empty_state)) (email_key_func ''bob@example.com'')
       = Some ''robert''
   \<and> cache (snd (nick2fas (answering (bob_response [bob])) ''bobby''
         (Positional (Some bot_credentials)) empty_state))
         (call_key (Email2fas ''bob@example.com'' (Positional (Some bot_credentials)))) = None
   \<and> fst (email2fas (answering (bob_response [bob])) ''bob@example.com''
         (Positional (Some bot_credentials))
         (snd (nick2fas (answering (bob_response [bob])) ''bobby''
            (Positional (Some bot_credentials)) empty_state))) = Inr ''robert''
   \<and> requests (snd (email2fas (answering (bob_response [bob])) ''bob@example.com''
         (Positional (Some bot_credentials))
         (snd (nick2fas (answering (bob_response [bob])) ''bobby''
            (Positional (Some bot_credentials)) empty_state))))
       = [bot_request ''bobby'' False, bot_request ''bob@example.com'' True]"
proof -
  define s1 where "s1 = \<lparr>cache = [email_key_func ''bob@example.com'' \<mapsto> ''robert'',
                nick_key_func ''bobby'' \<mapsto> ''robert'',
                function_key_generator ''nick2fas'' [AStr ''bobby'', ADict bot_credentials] \<mapsto> ''robert''],
       requests = [bot_request ''bobby'' False]\<rparr>"
  have n: "nick2fas (answering (bob_response [bob])) ''bobby'' (Positional (Some bot_credentials)) empty_state
      = (Inr ''robert'', s1)"
    unfolding s1_def by (rule nick2fas_bob_state)
  have w: "cache s1 (email_key_func ''bob@example.com'') = Some ''robert''"
    by (simp add: s1_def email_key_func_def nick_key_func_def function_key_generator_def)
  have 1: "fas_request bot_credentials ''bob@example.com'' True = Inr (bot_request ''bob@example.com'' True)"
    by (rule fas_request_bot)
  have 2: "answering (bob_response [bob]) (requests s1) (bot_request ''bob@example.com'' True)
      = Inr (bob_response [bob])"
    by (simp add: answering_def)
  have 3: "people (bob_response [bob]) = [bob]" by (simp add: bob_response_def)
  have 4: "person_username bob = Some ''robert''" by (simp add: bob_def)
  have 5: "username (bob_response [bob]) = Some ''robert''" by (simp add: bob_response_def)
  have 6: "True \<longrightarrow> \<not> endswith ''bob@example.com'' ''@fedoraproject.org''"
    by (simp add: endswith_def)
  have 7: "cache s1 (function_key_generator (if True then ''email2fas'' else ''nick2fas'')
           [AStr ''bob@example.com'', ADict bot_credentials]) = None"
    by (simp add: s1_def email_key_func_def nick_key_func_def function_key_generator_def)
  have e: "email2fas (answering (bob_response [bob])) ''bob@example.com''
         (Positional (Some bot_credentials)) s1 =
       (Inr ''robert'',
        s1\<lparr>requests := requests s1 @ [bot_request ''bob@example.com'' True],
           cache := (warm_person (bob_response [bob]) ''robert'' (cache s1))
                (function_key_generator ''email2fas''
                   [AStr ''bob@example.com'', ADict bot_credentials] \<mapsto> ''robert'')\<rparr>)"
    using lookup_single [where fas = "answering (bob_response [bob])" and s = s1,
        OF 1 2 3 4 5 6 7] by simp
  have r: "requests s1 = [bot_request ''bobby'' False]" by (simp add: s1_def)
  show ?thesis using w 7 by (simp add: n e r)
qed


lemma warm_person_dom: "dom c \<subseteq> dom (warm_person resp u c)"
  by (auto simp: warm_person_def Let_def)

lemma warm_cache_dom: "dom c \<subseteq> dom (snd (warm_cache resp ps c))"
proof (induction ps arbitrary: c)
  case Nil
  then show ?case by simp
next
  case (Cons p ps)
  show ?case
  proof (cases "username resp")
    case None
    then show ?thesis by simp
  next
    case (Some u)
    have "dom c \<subseteq> dom (warm_person resp u c)" by (rule warm_person_dom)
    also have "\<dots> \<subseteq> dom (snd (warm_cache resp ps (warm_person resp u c)))" by (rule Cons.IH)
    finally show ?thesis using Some by simp
  qed
qed

lemma warm_cache_keeps:
  "warm_cache resp ps c = (e, c') \<Longrightarrow> c k = Some y \<Longrightarrow> \<exists>y'. c' k = Some y'"
  using warm_cache_dom [of c resp ps] by auto

lemma search_fas_dom: "dom (cache s) \<subseteq> dom (cache (snd (search_fas fas x fc b s)))"
  by (auto simp: search_fas_def Let_def split: option.splits sum.splits prod.splits
      dest: warm_cache_keeps)

lemma search_fas_requests:
  "length (requests (snd (search_fas fas x fc b s))) \<le> Suc (length (requests s))"
  by (auto simp: search_fas_def Let_def split: option.splits sum.splits prod.splits)

lemma nick2fas_body_dom: "dom (cache s) \<subseteq> dom (cache (snd (nick2fas_body fas x fc s)))"
  using search_fas_dom [of s fas x fc False]
  by (auto simp: nick2fas_body_def split: prod.splits sum.splits)

lemma email2fas_body_dom: "dom (cache s) \<subseteq> dom (cache (snd (email2fas_body fas x fc s)))"
  using search_fas_dom [of s fas x fc True]
  by (auto simp: email2fas_body_def split: prod.splits sum.splits)

lemma nick2fas_body_requests:
  "length (requests (snd (nick2fas_body fas x fc s))) \<le> Suc (length (requests s))"
  using search_fas_requests [of fas x fc False s]
  by (auto simp: nick2fas_body_def split: prod.splits sum.splits)

lemma email2fas_body_requests:
  "length (requests (snd (email2fas_body fas x fc s))) \<le> Suc (length (requests s))"
  using search_fas_requests [of fas x fc True s]
  by (auto simp: email2fas_body_def split: prod.splits sum.splits)

lemma cache_on_arguments_dom:
  assumes "dom (cache s) \<subseteq> dom (cache (snd (creator s)))"
  shows "dom (cache s) \<subseteq> dom (cache (snd (cache_on_arguments f args creator s)))"
  using assms by (auto simp: cache_on_arguments_def Let_def split: option.splits prod.splits sum.splits)

lemma cache_on_arguments_requests:
  assumes "length (requests (snd (creator s))) \<le> Suc (length (requests s))"
  shows "length (requests (snd (cache_on_arguments f args creator s))) \<le> Suc (length (requests s))"
  using assms by (auto simp: cache_on_arguments_def Let_def split: option.splits prod.splits sum.splits)

lemma cache_on_arguments_stored:
  assumes "fst (cache_on_arguments f args creator s) = Inr v"
  shows "cache (snd (cache_on_arguments f args creator s)) (function_key_generator f args) = Some v"
  using assms by (auto simp: cache_on_arguments_def Let_def split: option.splits prod.splits sum.splits)

lemma run_dom: "dom (cache s) \<subseteq> dom (cache (snd (run fas c s)))"
  by (cases c) (simp_all add: nick2fas_def email2fas_def cache_on_arguments_dom
      nick2fas_body_dom email2fas_body_dom)

lemma run_requests: "length (requests (snd (run fas c s))) \<le> Suc (length (requests s))"
  by (cases c) (simp_all add: nick2fas_def email2fas_def cache_on_arguments_requests
      nick2fas_body_requests email2fas_body_requests)

lemma run_stored: "fst (run fas c s) = Inr v \<Longrightarrow> cache (snd (run fas c s)) (call_key c) = Some v"
  by (cases c) (simp_all add: nick2fas_def email2fas_def cache_on_arguments_stored)

lemma run_hit: "cache s (call_key c) = Some v \<Longrightarrow> run fas c s = (Inr v, s)"
  by (cases c) (simp_all add: nick2fas_def email2fas_def cache_on_arguments_hit)

lemma run_all_dom: "dom (cache s) \<subseteq> dom (cache (run_all fas cs s))"
proof (induction cs arbitrary: s)
  case Nil
  then show ?case by simp
next
  case (Cons c cs)
  have "dom (cache s) \<subseteq> dom (cache (snd (run fas c s)))" by (rule run_dom)
  also have "\<dots> \<subseteq> dom (cache (run_all fas cs (snd (run fas c s))))" by (rule Cons.IH)
  finally show ?case by simp
qed

lemma run_all_replicate_hit:
  "cache s (call_key c) = Some v \<Longrightarrow> run_all fas (replicate n c) s = s"
  by (induction n) (simp_all add: run_hit)

lemma nick2fas_no_match_state:
  assumes "fas_request creds x False = Inr req"
    and "fas (requests s) req = Inr resp"
    and "people resp = []"
    and "cache s (call_key (Nick2fas x (Positional (Some creds)))) = None"
  shows "nick2fas fas x (Positional (Some creds)) s =
           (Inl (NoMatch x False), s\<lparr>requests := requests s @ [req]\<rparr>)"
proof -
  have "nick2fas_body fas x (cred_value (Positional (Some creds))) s =
        (Inl (NoMatch x False), s\<lparr>requests := requests s @ [req]\<rparr>)"
    using search_fas_empty [where fas = fas and s = s, OF assms(1-3)]
    by (simp add: nick2fas_body_def)
  then show ?thesis using assms(4)
    by (simp add: nick2fas_def cache_on_arguments_miss_error)
qed

text \<open>
  C9, as stated, fails: a call that raises is not memoized. Against a directory that
  finds nobody, two calls \<^verbatim>\<open>nick2fas('bobby', creds)\<close> in a row both raise \<open>NoMatch\<close>,
  and each sends its own request: the log holds two.
\<close>

theorem failing_calls_search_again:
  "fst (run (answering nobody) (Nick2fas ''bobby'' (Positional (Some bot_credentials))) empty_state)
     = Inl (NoMatch ''bobby'' False)
   \<and> fst (run (answering nobody) (Nick2fas ''bobby'' (Positional (Some bot_credentials)))
        (snd (run (answering nobody) (Nick2fas ''bobby'' (Positional (Some bot_credentials)))
           empty_state)))
     = Inl (NoMatch ''bobby'' False)
   \<and> requests (run_all (answering nobody)
        [Nick2fas ''bobby'' (Positional (Some bot_credentials)),
         Nick2fas ''bobby'' (Positional (Some bot_credentials))] empty_state)
     = [bot_request ''bobby'' False, bot_request ''bobby'' False]"
proof -
  define s1 where "s1 = empty_state\<lparr>requests := requests empty_state @ [bot_request ''bobby'' False]\<rparr>"
  have 1: "fas_request bot_credentials ''bobby'' False = Inr (bot_request ''bobby'' False)"
    by (rule fas_request_bot)
  have 3: "people nobody = []" by (simp add: nobody_def)
  have a: "nick2fas (answering nobody) ''bobby'' (Positional (Some bot_credentials)) empty_state
      = (Inl (NoMatch ''bobby'' False), s1)"
  proof -
    have 2: "answering nobody (requests empty_state) (bot_request ''bobby'' False) = Inr nobody"
      by (simp add: answering_def)
    have 4: "cache empty_state (call_key (Nick2fas ''bobby'' (Positional (Some bot_credentials)))) = None"
      by (simp add: empty_state_def)
    show ?thesis unfolding s1_def
      using nick2fas_no_match_state [where fas = "answering nobody" and s = empty_state, OF 1 2 3 4] .
  qed
  have b: "nick2fas (answering nobody) ''bobby'' (Positional (Some bot_credentials)) s1
      = (Inl (NoMatch ''bobby'' False), s1\<lparr>requests := requests s1 @ [bot_request ''bobby'' False]\<rparr>)"
  proof -
    have 2: "answering nobody (requests s1) (bot_request ''bobby'' False) = Inr nobody"
      by (simp add: answering_def)
    have 4: "cache s1 (call_key (Nick2fas ''bobby'' (Positional (Some bot_credentials)))) = None"
      by (simp add: s1_def empty_state_def)
    show ?thesis
      using nick2fas_no_match_state [where fas = "answering nobody" and s = s1, OF 1 2 3 4] .
  qed
  have r: "requests s1 = [bot_request ''bobby'' False]"
    by (simp add: s1_def empty_state_def)
  show ?thesis by (simp add: a b r)
qed

text \<open>
  C9, amended. In a sequential run against the in-memory cache, once a call of
  \<^verbatim>\<open>nick2fas\<close> or \<^verbatim>\<open>email2fas\<close> has succeeded, having sent at most one request, every
  later call with the same arguments is served from the cache: it returns a value and
  leaves the state, and so the request log, as it is. This holds directly after the
  successful call, where the same value is returned, for any number of repetitions, and
  after any other calls of the two functions in between.
\<close>

theorem repeated_call_served_from_cache:
  assumes "fst (run fas c s) = Inr v"
  shows "length (requests (snd (run fas c s))) \<le> length (requests s) + 1
     \<and> run fas c (snd (run fas c s)) = (Inr v, snd (run fas c s))
     \<and> run_all fas (replicate n c) (snd (run fas c s)) = snd (run fas c s)
     \<and> (\<exists>v'. run fas c (run_all fas cs (snd (run fas c s)))
              = (Inr v', run_all fas cs (snd (run fas c s))))"
proof -
  let ?s1 = "snd (run fas c s)"
  have st: "cache ?s1 (call_key c) = Some v" using assms by (rule run_stored)
  have "call_key c \<in> dom (cache ?s1)" using st by blast
  then have "call_key c \<in> dom (cache (run_all fas cs ?s1))"
    using run_all_dom by blast
  then obtain v' where "cache (run_all fas cs ?s1) (call_key c) = Some v'" by blast
  then have "run fas c (run_all fas cs ?s1) = (Inr v', run_all fas cs ?s1)" by (rule run_hit)
  moreover have "length (requests ?s1) \<le> length (requests s) + 1"
    using run_requests [of fas c s] by simp
  moreover have "run fas c ?s1 = (Inr v, ?s1)" using st by (rule run_hit)
  moreover have "run_all fas (replicate n c) ?s1 = ?s1" using st by (rule run_all_replicate_hit)
  ultimately show ?thesis by blast
qed

theorem repeated_call_served_from_cache_witness:
  "fst (run (answering (bob_response [bob])) (Nick2fas ''bobby'' (Positional (Some bot_credentials)))
      empty_state) = Inr ''robert''
   \<and> requests (run_all (answering (bob_response [bob]))
        (replicate 3 (Nick2fas ''bobby'' (Positional (Some bot_credentials))))
        (snd (run (answering (bob_response [bob])) (Nick2fas ''bobby'' (Positional (Some bot_credentials)))
           empty_state))) = [bot_request ''bobby'' False]"
proof -
  have h: "fst (run (answering (bob_response [bob])) (Nick2fas ''bobby'' (Positional (Some bot_credentials)))
      empty_state) = Inr ''robert''"
    by (simp add: nick2fas_bob_state)
  show ?thesis
    using h repeated_call_served_from_cache [OF h, of 3]
    by (simp add: nick2fas_bob_state)
qed

end
